theory Spec2Isabelle
  imports Complex_Main "HOL-Library.Word"
begin

section \<open>Billing engine: the loan ledger and the loan registry\<close>

subsection \<open>Decimals and Money (domain/money.go)\<close>

text \<open>
  \<^verbatim>\<open>decimal.Decimal\<close> (shopspring/decimal) is an arbitrary-precision decimal number, a
  big-integer coefficient times a power of ten. \<^verbatim>\<open>Add\<close>, \<^verbatim>\<open>Sub\<close> and \<^verbatim>\<open>Mul\<close> are exact and
  \<^verbatim>\<open>Equal\<close>, \<^verbatim>\<open>IsZero\<close>, \<^verbatim>\<open>IsNegative\<close> compare values, not representations, so a decimal
  is modelled by its value, a rational number. \<^verbatim>\<open>Div\<close> is \<^verbatim>\<open>DivRound\<close> at
  \<^verbatim>\<open>DivisionPrecision = 16\<close> fractional digits: the quotient is truncated at that digit and
  moved one unit away from zero when twice the remainder reaches the divisor. Division by zero
  panics in the library; the only division of the program has the divisor 50. The library
  keeps the exponent in an \<^verbatim>\<open>int32\<close>; that bound is outside this model.
\<close>

type_synonym decimal = rat

definition decimal_NewFromInt :: "int \<Rightarrow> decimal" where
  "decimal_NewFromInt n = of_int n"

definition DivisionPrecision :: nat where
  "DivisionPrecision = 16"

definition trunc_toward_zero :: "rat \<Rightarrow> int" where
  "trunc_toward_zero x = (if x < 0 then - \<lfloor>- x\<rfloor> else \<lfloor>x\<rfloor>)"

definition decimal_DivRound :: "decimal \<Rightarrow> decimal \<Rightarrow> nat \<Rightarrow> decimal" where
  "decimal_DivRound d d2 precision =
     (let unit = 1 / 10 ^ precision;
          q = of_int (trunc_toward_zero (d / d2 * 10 ^ precision)) * unit;
          r = d - q * d2
      in if 2 * \<bar>r\<bar> * 10 ^ precision < \<bar>d2\<bar> then q
         else if sgn d * sgn d2 < 0 then q - unit
         else q + unit)"

definition decimal_Div :: "decimal \<Rightarrow> decimal \<Rightarrow> decimal" where
  "decimal_Div d d2 = decimal_DivRound d d2 DivisionPrecision"

datatype Money = Money (Money_Amount: decimal)

definition NewMoney :: "int \<Rightarrow> Money" where
  "NewMoney n = Money (decimal_NewFromInt n)"

definition Money_IsZero :: "Money \<Rightarrow> bool" where
  "Money_IsZero m = (Money_Amount m = 0)"

definition Money_IsNegative :: "Money \<Rightarrow> bool" where
  "Money_IsNegative m = (Money_Amount m < 0)"

definition Money_Equals :: "Money \<Rightarrow> Money \<Rightarrow> bool" where
  "Money_Equals m other = (Money_Amount m = Money_Amount other)"

definition Money_Add :: "Money \<Rightarrow> Money \<Rightarrow> Money" where
  "Money_Add m other = Money (Money_Amount m + Money_Amount other)"

definition Money_Subtract :: "Money \<Rightarrow> Money \<Rightarrow> Money" where
  "Money_Subtract m other = Money (Money_Amount m - Money_Amount other)"

definition Money_Multiply :: "Money \<Rightarrow> decimal \<Rightarrow> Money" where
  "Money_Multiply m multiplier = Money (Money_Amount m * multiplier)"

subsection \<open>The loan (domain/loan.go)\<close>

text \<open>
  Go's \<^verbatim>\<open>int\<close> is a 64-bit two's-complement integer on the usual platforms: week numbers are
  64-bit words, compared as signed values (\<open><s\<close>, \<open>\<le>s\<close>), with wrapping subtraction.
  \<^verbatim>\<open>time.Time\<close> is an abstract instant; the value \<^verbatim>\<open>time.Now()\<close> yields is an argument
  \<open>now\<close> of the operation that reads the clock.
\<close>

type_synonym go_int = "64 word"
type_synonym Time = nat

definition LoanDurationWeeks :: nat where
  "LoanDurationWeeks = 50"

definition DelinquencyThreshold :: go_int where
  "DelinquencyThreshold = 2"

record ScheduleEntry =
  WeekNumber :: go_int
  Amount :: Money
  IsPaid :: bool

record Payment =
  WeekNumber :: go_int
  Amount :: Money
  PaidAt :: Time

record Loan =
  ID :: string
  BorrowerID :: string
  Principal :: Money
  InterestRate :: decimal
  TotalAmount :: Money
  WeeklyPayment :: Money
  Schedule :: "ScheduleEntry list"
  Payments :: "Payment list"
  CurrentWeek :: go_int

datatype error =
    ErrInvalidPaymentAmount
  | ErrNegativeAmount
  | ErrInvalidWeekNumber
  | ErrLoanFullyPaid
  | ErrWeekAlreadyPaid
  | ErrPaymentOutOfSequence

text \<open>
  A call either returns a result together with the state it leaves behind, or panics
  (an index out of range; the run-time aborts the call).
\<close>

datatype ('r, 's) outcome = Panic | Returns 'r 's

definition NewLoan :: "string \<Rightarrow> string \<Rightarrow> Money \<Rightarrow> decimal \<Rightarrow> Loan" where
  "NewLoan ident borrowerID principal' annualInterestRate =
     (let interest = Money_Multiply principal' annualInterestRate;
          totalAmount = Money_Add principal' interest;
          weeklyPayment = Money_Multiply totalAmount
            (decimal_Div (decimal_NewFromInt 1) (decimal_NewFromInt (int LoanDurationWeeks)));
          schedule = map (\<lambda>i. \<lparr>ScheduleEntry.WeekNumber = word_of_nat i + 1,
                                  Amount = weeklyPayment, IsPaid = False\<rparr>)
                         [0..<LoanDurationWeeks]
      in \<lparr>ID = ident, BorrowerID = borrowerID, Principal = principal',
          InterestRate = annualInterestRate, TotalAmount = totalAmount,
          WeeklyPayment = weeklyPayment, Schedule = schedule, Payments = [],
          CurrentWeek = 1\<rparr>)"

text \<open>The loop of \<^verbatim>\<open>GetOutstanding\<close> adds the payments from left to right.\<close>

definition GetOutstanding :: "Loan \<Rightarrow> Money" where
  "GetOutstanding l =
     Money_Subtract (TotalAmount l)
       (foldl (\<lambda>totalPaid payment. Money_Add totalPaid (Payment.Amount payment))
              (NewMoney 0) (Payments l))"

text \<open>The loop of \<^verbatim>\<open>IsDelinquent\<close>, with \<open>lastPaidWeek\<close> as the accumulator.\<close>

fun lastPaidWeek_loop :: "go_int \<Rightarrow> ScheduleEntry list \<Rightarrow> go_int" where
  "lastPaidWeek_loop lastPaidWeek [] = lastPaidWeek"
| "lastPaidWeek_loop lastPaidWeek (entry # entries) =
     (if IsPaid entry \<and> lastPaidWeek <s ScheduleEntry.WeekNumber entry
      then lastPaidWeek_loop (ScheduleEntry.WeekNumber entry) entries
      else lastPaidWeek_loop lastPaidWeek entries)"

definition IsDelinquent :: "Loan \<Rightarrow> bool" where
  "IsDelinquent l =
     (let lastPaidWeek = lastPaidWeek_loop 0 (Schedule l);
          weeksBehind = CurrentWeek l - lastPaidWeek
      in DelinquencyThreshold \<le>s weeksBehind)"

definition SetCurrentWeek :: "Loan \<Rightarrow> go_int \<Rightarrow> Loan" where
  "SetCurrentWeek l week =
     (if 1 \<le>s week \<and> week \<le>s word_of_nat LoanDurationWeeks
      then l\<lparr>CurrentWeek := week\<rparr> else l)"

fun findFirstUnpaidWeek_loop :: "ScheduleEntry list \<Rightarrow> go_int" where
  "findFirstUnpaidWeek_loop [] = 0"
| "findFirstUnpaidWeek_loop (entry # entries) =
     (if \<not> IsPaid entry then ScheduleEntry.WeekNumber entry
      else findFirstUnpaidWeek_loop entries)"

definition findFirstUnpaidWeek :: "Loan \<Rightarrow> go_int" where
  "findFirstUnpaidWeek l = findFirstUnpaidWeek_loop (Schedule l)"

definition GetNextDueWeek :: "Loan \<Rightarrow> go_int" where
  "GetNextDueWeek l = findFirstUnpaidWeek l"

definition IsClosed :: "Loan \<Rightarrow> bool" where
  "IsClosed l = Money_IsZero (GetOutstanding l)"

text \<open>
  \<^verbatim>\<open>MakePayment\<close> returns \<open>Some e\<close> for the error \<open>e\<close> and \<open>None\<close> for \<^verbatim>\<open>nil\<close>. The index
  expression \<^verbatim>\<open>l.Schedule[scheduleIndex]\<close> panics when the schedule has no such element.
\<close>

definition MakePayment :: "Loan \<Rightarrow> Money \<Rightarrow> go_int \<Rightarrow> Time \<Rightarrow> (error option, Loan) outcome" where
  "MakePayment l amount weekNumber now =
     (if Money_IsNegative amount then Returns (Some ErrNegativeAmount) l
      else if \<not> Money_Equals amount (WeeklyPayment l) then Returns (Some ErrInvalidPaymentAmount) l
      else if Money_IsZero (GetOutstanding l) then Returns (Some ErrLoanFullyPaid) l
      else if weekNumber <s 1 \<or> word_of_nat LoanDurationWeeks <s weekNumber
        then Returns (Some ErrInvalidWeekNumber) l
      else let scheduleIndex = unat (weekNumber - 1) in
        if \<not> scheduleIndex < length (Schedule l) then Panic
        else if IsPaid (Schedule l ! scheduleIndex) then Returns (Some ErrWeekAlreadyPaid) l
        else if weekNumber \<noteq> findFirstUnpaidWeek l then Returns (Some ErrPaymentOutOfSequence) l
        else let payment = \<lparr>Payment.WeekNumber = weekNumber, Amount = amount, PaidAt = now\<rparr>
             in Returns None
                  (l\<lparr>Payments := Payments l @ [payment],
                     Schedule := (Schedule l)[scheduleIndex := (Schedule l ! scheduleIndex)\<lparr>IsPaid := True\<rparr>]\<rparr>))"

text \<open>What a call returned, and the state it left, when it did not panic.\<close>

fun returned :: "('r, 's) outcome \<Rightarrow> 'r option" where
  "returned Panic = None"
| "returned (Returns r s) = Some r"

fun state_after :: "('r, 's) outcome \<Rightarrow> 's option" where
  "state_after Panic = None"
| "state_after (Returns r s) = Some s"

subsection \<open>Sequences of operations on one loan\<close>

text \<open>
  The operations that change a loan after \<^verbatim>\<open>NewLoan\<close> are \<^verbatim>\<open>MakePayment\<close> (whatever it
  returns) and \<^verbatim>\<open>SetCurrentWeek\<close>. A sequence of them is run from left to right; a panic
  ends the run with \<open>None\<close>.
\<close>

datatype loan_op = OpMakePayment Money go_int Time | OpSetCurrentWeek go_int

fun apply_loan_op :: "Loan \<Rightarrow> loan_op \<Rightarrow> Loan option" where
  "apply_loan_op l (OpMakePayment amount weekNumber now) =
     state_after (MakePayment l amount weekNumber now)"
| "apply_loan_op l (OpSetCurrentWeek week) = Some (SetCurrentWeek l week)"

fun run_loan_ops :: "Loan \<Rightarrow> loan_op list \<Rightarrow> Loan option" where
  "run_loan_ops l [] = Some l"
| "run_loan_ops l (x # xs) =
     (case apply_loan_op l x of None \<Rightarrow> None | Some l' \<Rightarrow> run_loan_ops l' xs)"

subsection \<open>The registry (service/billing_service.go)\<close>

text \<open>
  The service owns a map from loan identifiers to loans. Every method runs under the
  service's lock, so a call is one atomic step on the map. The two \<^verbatim>\<open>fmt.Errorf\<close> errors
  are the constructors \<open>DuplicateLoan\<close> ("already exists") and \<open>LoanNotFound\<close>
  ("not found"); a ledger error is passed on unchanged. The map holds pointers: a payment
  changes the loan the map refers to.
\<close>

record BillingService =
  loans :: "string \<rightharpoonup> Loan"

datatype service_error = DuplicateLoan string | LoanNotFound string | Ledger error

definition NewBillingService :: BillingService where
  "NewBillingService = \<lparr>loans = Map.empty\<rparr>"

text \<open>\<^verbatim>\<open>decimal.NewFromFloat(0.10)\<close> is the decimal 0.1.\<close>

definition CreateLoan ::
  "BillingService \<Rightarrow> string \<Rightarrow> string \<Rightarrow> Money \<Rightarrow> (service_error + Loan) \<times> BillingService" where
  "CreateLoan s loanID borrowerID principal' =
     (case loans s loanID of
        Some existing \<Rightarrow> (Inl (DuplicateLoan loanID), s)
      | None \<Rightarrow>
          let annualInterestRate = 1 / 10;
              loan = NewLoan loanID borrowerID principal' annualInterestRate
          in (Inr loan, s\<lparr>loans := (loans s)(loanID \<mapsto> loan)\<rparr>))"

definition GetLoan :: "BillingService \<Rightarrow> string \<Rightarrow> service_error + Loan" where
  "GetLoan s loanID =
     (case loans s loanID of None \<Rightarrow> Inl (LoanNotFound loanID) | Some loan \<Rightarrow> Inr loan)"

definition Service_MakePayment ::
  "BillingService \<Rightarrow> string \<Rightarrow> Money \<Rightarrow> go_int \<Rightarrow> Time
     \<Rightarrow> (service_error option, BillingService) outcome" where
  "Service_MakePayment s loanID amount weekNumber now =
     (case loans s loanID of
        None \<Rightarrow> Returns (Some (LoanNotFound loanID)) s
      | Some loan \<Rightarrow>
          (case MakePayment loan amount weekNumber now of
             Panic \<Rightarrow> Panic
           | Returns err loan' \<Rightarrow>
               Returns (map_option Ledger err) (s\<lparr>loans := (loans s)(loanID \<mapsto> loan')\<rparr>)))"

definition Service_MakeNextPayment ::
  "BillingService \<Rightarrow> string \<Rightarrow> Money \<Rightarrow> Time
     \<Rightarrow> (service_error option, BillingService) outcome" where
  "Service_MakeNextPayment s loanID amount now =
     (case loans s loanID of
        None \<Rightarrow> Returns (Some (LoanNotFound loanID)) s
      | Some loan \<Rightarrow>
          let nextWeek = GetNextDueWeek loan in
          if nextWeek = 0 then Returns (Some (Ledger ErrLoanFullyPaid)) s
          else (case MakePayment loan amount nextWeek now of
                  Panic \<Rightarrow> Panic
                | Returns err loan' \<Rightarrow>
                    Returns (map_option Ledger err) (s\<lparr>loans := (loans s)(loanID \<mapsto> loan')\<rparr>)))"

text \<open>
  What a caller can do to a service: the three methods that change it, and
  \<^verbatim>\<open>SetCurrentWeek\<close> on a loan it got from \<^verbatim>\<open>CreateLoan\<close> or \<^verbatim>\<open>GetLoan\<close> (as main.go does).
\<close>

datatype service_op =
    SvcCreateLoan string string Money
  | SvcMakePayment string Money go_int Time
  | SvcMakeNextPayment string Money Time
  | SvcSetCurrentWeek string go_int

fun apply_service_op :: "BillingService \<Rightarrow> service_op \<Rightarrow> BillingService option" where
  "apply_service_op s (SvcCreateLoan loanID borrowerID principal') =
     Some (snd (CreateLoan s loanID borrowerID principal'))"
| "apply_service_op s (SvcMakePayment loanID amount weekNumber now) =
     state_after (Service_MakePayment s loanID amount weekNumber now)"
| "apply_service_op s (SvcMakeNextPayment loanID amount now) =
     state_after (Service_MakeNextPayment s loanID amount now)"
| "apply_service_op s (SvcSetCurrentWeek loanID week) =
     (case loans s loanID of
        None \<Rightarrow> Some s
      | Some loan \<Rightarrow> Some (s\<lparr>loans := (loans s)(loanID \<mapsto> SetCurrentWeek loan week)\<rparr>))"

fun run_service_ops :: "BillingService \<Rightarrow> service_op list \<Rightarrow> BillingService option" where
  "run_service_ops s [] = Some s"
| "run_service_ops s (x # xs) =
     (case apply_service_op s x of None \<Rightarrow> None | Some s' \<Rightarrow> run_service_ops s' xs)"

subsection \<open>The specification's own words\<close>

text \<open>
  The last paid week: the maximum week number among the paid schedule entries, or 0 if
  none is paid. The lowest unpaid week: the minimum week number among the unpaid schedule
  entries, or 0 if all are paid. Both over the integers.
\<close>

definition lastPaidWeek_spec :: "Loan \<Rightarrow> int" where
  "lastPaidWeek_spec l =
     (let paid = filter IsPaid (Schedule l)
      in if paid = [] then 0 else Max (set (map (\<lambda>e. sint (ScheduleEntry.WeekNumber e)) paid)))"

definition lowest_unpaid_week :: "Loan \<Rightarrow> int" where
  "lowest_unpaid_week l =
     (let unpaid = filter (\<lambda>e. \<not> IsPaid e) (Schedule l)
      in if unpaid = [] then 0
         else Min (set (map (\<lambda>e. sint (ScheduleEntry.WeekNumber e)) unpaid)))"

text \<open>
  The data model of a loan: the schedule has one entry per week of the term, the entry at
  position \<open>i\<close> carries the week number \<open>i + 1\<close>, and the current week lies in 1..50. Which
  entries are paid is left open.
\<close>

definition loan_data_model :: "Loan \<Rightarrow> bool" where
  "loan_data_model l \<longleftrightarrow>
     length (Schedule l) = LoanDurationWeeks \<and>
     (\<forall>i < LoanDurationWeeks. ScheduleEntry.WeekNumber (Schedule l ! i) = word_of_nat i + 1) \<and>
     1 \<le>s CurrentWeek l \<and> CurrentWeek l \<le>s word_of_nat LoanDurationWeeks"

text \<open>
  The six checks of a payment, in the specification's order, each with the error it
  reports; \<open>True\<close> means the check fails. The schedule entry at a week number is the one at
  position \<open>weekNumber - 1\<close>; the first unpaid week is the lowest unpaid week number, or 0.
\<close>

definition week_already_paid :: "Loan \<Rightarrow> go_int \<Rightarrow> bool" where
  "week_already_paid l weekNumber =
     (let i = nat (sint weekNumber - 1)
      in 1 \<le> sint weekNumber \<and> i < length (Schedule l) \<and> IsPaid (Schedule l ! i))"

definition payment_checks :: "Loan \<Rightarrow> Money \<Rightarrow> go_int \<Rightarrow> (bool \<times> error) list" where
  "payment_checks l amount weekNumber =
     [(Money_Amount amount < 0, ErrNegativeAmount),
      (Money_Amount amount \<noteq> Money_Amount (WeeklyPayment l), ErrInvalidPaymentAmount),
      (Money_Amount (GetOutstanding l) = 0, ErrLoanFullyPaid),
      (sint weekNumber < 1 \<or> int LoanDurationWeeks < sint weekNumber, ErrInvalidWeekNumber),
      (week_already_paid l weekNumber, ErrWeekAlreadyPaid),
      (sint weekNumber \<noteq> lowest_unpaid_week l, ErrPaymentOutOfSequence)]"

definition first_failed_check :: "Loan \<Rightarrow> Money \<Rightarrow> go_int \<Rightarrow> error option" where
  "first_failed_check l amount weekNumber =
     map_option snd (find fst (payment_checks l amount weekNumber))"

text \<open>
  The invariant of a loan built by \<^verbatim>\<open>NewLoan\<close> and changed only by its operations: the
  schedule has one entry per week, numbered from 1; with \<open>n\<close> payments recorded, exactly the
  first \<open>n\<close> entries are paid and the payments are those of the weeks 1 to \<open>n\<close>, each of the
  weekly amount; fifty weekly payments are the total amount.
\<close>

definition loan_inv :: "Loan \<Rightarrow> bool" where
  "loan_inv l \<longleftrightarrow>
     length (Payments l) \<le> LoanDurationWeeks \<and>
     length (Schedule l) = LoanDurationWeeks \<and>
     (\<forall>i < LoanDurationWeeks.
        ScheduleEntry.WeekNumber (Schedule l ! i) = word_of_nat i + 1 \<and>
        IsPaid (Schedule l ! i) = (i < length (Payments l))) \<and>
     map Payment.WeekNumber (Payments l)
       = map (\<lambda>i. word_of_nat i + 1) [0..<length (Payments l)] \<and>
     (\<forall>p \<in> set (Payments l). Payment.Amount p = WeeklyPayment l) \<and>
     Money_Amount (TotalAmount l) = Money_Amount (WeeklyPayment l) * 50"

subsection \<open>Example states\<close>

text \<open>
  The loan of the repository's tests and demonstration: 5,000,000 at 10 percent. Then the
  same loan with week 1 paid at the instant 7.
\<close>

definition demo_loan :: Loan where
  "demo_loan = NewLoan ''loan-100'' ''borrower-123'' (NewMoney 5000000) (1 / 10)"

definition demo_paid1 :: Loan where
  "demo_paid1 =
     demo_loan\<lparr>Payments := [\<lparr>Payment.WeekNumber = 1, Amount = NewMoney 110000, PaidAt = 7\<rparr>],
               Schedule := (Schedule demo_loan)[0 := (Schedule demo_loan ! 0)\<lparr>IsPaid := True\<rparr>]\<rparr>"

text \<open>The loan built from a principal of zero.\<close>

definition zero_loan :: Loan where
  "zero_loan = NewLoan ''loan-0'' ''borrower-0'' (NewMoney 0) (1 / 10)"

text \<open>
  A run on the demonstration loan: week 1 is paid, the current week becomes 3, a payment
  for week 3 is refused, week 2 is paid; and the state the run ends in.
\<close>

definition demo_ops :: "loan_op list" where
  "demo_ops =
     [OpMakePayment (NewMoney 110000) 1 7, OpSetCurrentWeek 3,
      OpMakePayment (NewMoney 110000) 3 8, OpMakePayment (NewMoney 110000) 2 9]"

definition demo_paid2 :: Loan where
  "demo_paid2 =
     demo_loan\<lparr>Payments := [\<lparr>Payment.WeekNumber = 1, Amount = NewMoney 110000, PaidAt = 7\<rparr>,
                            \<lparr>Payment.WeekNumber = 2, Amount = NewMoney 110000, PaidAt = 9\<rparr>],
               Schedule := (Schedule demo_loan)
                 [0 := (Schedule demo_loan ! 0)\<lparr>IsPaid := True\<rparr>,
                  1 := (Schedule demo_loan ! 1)\<lparr>IsPaid := True\<rparr>],
               CurrentWeek := 3\<rparr>"

text \<open>
  The invariant of a service: every registered loan satisfies the invariant of a loan.
  Then the service of the demonstration after \<^verbatim>\<open>CreateLoan\<close>, and after a payment of
  week 1.
\<close>

definition service_inv :: "BillingService \<Rightarrow> bool" where
  "service_inv s \<longleftrightarrow> (\<forall>loanID loan. loans s loanID = Some loan \<longrightarrow> loan_inv loan)"

definition demo_service :: BillingService where
  "demo_service = \<lparr>loans = [''loan-100'' \<mapsto> demo_loan]\<rparr>"

definition demo_service_ops :: "service_op list" where
  "demo_service_ops =
     [SvcCreateLoan ''loan-100'' ''borrower-123'' (NewMoney 5000000),
      SvcMakePayment ''loan-100'' (NewMoney 110000) 1 7]"

definition demo_service_paid1 :: BillingService where
  "demo_service_paid1 = \<lparr>loans = [''loan-100'' \<mapsto> demo_paid1]\<rparr>"

subsection \<open>Construction\<close>

lemmas money_defs =
  NewMoney_def decimal_NewFromInt_def Money_IsZero_def Money_IsNegative_def Money_Equals_def
  Money_Add_def Money_Subtract_def Money_Multiply_def

lemma trunc_toward_zero_of_int: "trunc_toward_zero (of_int n) = n"
  by (simp add: trunc_toward_zero_def)

lemma decimal_Div_1_50: "decimal_Div 1 50 = 1 / 50"
proof -
  have q: "trunc_toward_zero 200000000000000 = 200000000000000"
    using trunc_toward_zero_of_int [of 200000000000000] by simp
  show ?thesis
    unfolding decimal_Div_def decimal_DivRound_def DivisionPrecision_def
    by (simp add: q Let_def)
qed

text \<open>
  C5. For every construction, the weekly payment is the total amount divided exactly by
  the term of 50 weeks, fifty weekly payments are exactly the total amount, and a principal
  of 5,000,000 at the rate 0.10 has the weekly payment 110,000.
\<close>

theorem NewLoan_weeklyPayment_exact:
  "Money_Amount (WeeklyPayment (NewLoan ident borrowerID principal' rate))
     = Money_Amount (TotalAmount (NewLoan ident borrowerID principal' rate)) / of_nat LoanDurationWeeks
   \<and> Money_Equals
       (Money_Multiply (WeeklyPayment (NewLoan ident borrowerID principal' rate))
          (decimal_NewFromInt (int LoanDurationWeeks)))
       (TotalAmount (NewLoan ident borrowerID principal' rate))
   \<and> WeeklyPayment (NewLoan ident' borrowerID' (NewMoney 5000000) (1 / 10)) = NewMoney 110000"
  by (simp add: NewLoan_def Let_def decimal_Div_1_50 money_defs LoanDurationWeeks_def)

subsection \<open>Week numbers as 64-bit integers\<close>

lemma sint_week:
  fixes w :: go_int
  shows "(w <s 1 \<or> word_of_nat LoanDurationWeeks <s w) = (sint w < 1 \<or> 50 < sint w)"
  by (simp add: word_sless_alt LoanDurationWeeks_def)

lemma unat_pred_week:
  fixes w :: go_int
  assumes "1 \<le> sint w"
  shows "unat (w - 1) = nat (sint w - 1)"
proof -
  have b: "sint w < 2 ^ 63"
    using sint_lt [of w] by simp
  have "w - 1 = word_of_int (sint w - 1)"
    by simp
  then have "unat (w - 1) = nat (take_bit 64 (sint w - 1))"
    by (simp only: unat_eq_nat_uint uint_word_of_int_eq) simp
  also have "take_bit 64 (sint w - 1) = sint w - 1"
    using assms b by (simp add: take_bit_int_eq_self)
  finally show ?thesis .
qed

lemma sint_week_of_nat:
  fixes n :: nat
  assumes "n < 50"
  shows "sint (word_of_nat n + 1 :: go_int) = int n + 1"
proof -
  have "(word_of_nat n + 1 :: go_int) = word_of_int (int n + 1)"
    by simp
  then have "sint (word_of_nat n + 1 :: go_int) = signed_take_bit 63 (int n + 1)"
    by (simp only: sint_sbintrunc') simp
  also have "\<dots> = int n + 1"
    using assms by (simp add: signed_take_bit_int_eq_self)
  finally show ?thesis .
qed

lemma unat_week_of_nat:
  fixes n :: nat
  assumes "n < 50"
  shows "unat ((word_of_nat n + 1 :: go_int) - 1) = n"
  using assms by (simp add: unat_of_nat)

lemma week_of_nat_inj:
  fixes n m :: nat
  assumes "n < 50" "m < 50" "(word_of_nat n + 1 :: go_int) = word_of_nat m + 1"
  shows "n = m"
proof -
  have "sint (word_of_nat n + 1 :: go_int) = sint (word_of_nat m + 1 :: go_int)"
    by (simp only: assms(3))
  then have "int n + 1 = int m + 1"
    by (simp only: sint_week_of_nat [OF assms(1)] sint_week_of_nat [OF assms(2)])
  then show ?thesis
    by linarith
qed

subsection \<open>Outstanding amount\<close>

lemma foldl_Money_Add:
  "Money_Amount (foldl (\<lambda>totalPaid payment. Money_Add totalPaid (Payment.Amount payment)) acc ps)
     = Money_Amount acc + sum_list (map (\<lambda>p. Money_Amount (Payment.Amount p)) ps)"
  by (induction ps arbitrary: acc) (simp_all add: Money_Add_def)

lemma GetOutstanding_amount:
  "Money_Amount (GetOutstanding l)
     = Money_Amount (TotalAmount l) - sum_list (map (\<lambda>p. Money_Amount (Payment.Amount p)) (Payments l))"
  by (simp add: GetOutstanding_def Money_Subtract_def foldl_Money_Add NewMoney_def decimal_NewFromInt_def)

text \<open>
  C4. The outstanding amount is the total amount minus the sum of the amounts of the
  recorded payments, in every loan state (so in every state reached from construction);
  a fresh loan has no payment and its outstanding amount is its total amount.
\<close>

theorem GetOutstanding_total_minus_paid:
  "Money_Amount (GetOutstanding l)
     = Money_Amount (TotalAmount l) - (\<Sum>p\<leftarrow>Payments l. Money_Amount (Payment.Amount p))
   \<and> GetOutstanding (NewLoan ident borrowerID principal' rate)
       = TotalAmount (NewLoan ident borrowerID principal' rate)"
  by (simp add: GetOutstanding_amount Money.expand NewLoan_def Let_def)

subsection \<open>The data model and the lowest unpaid week\<close>

lemma findFirstUnpaidWeek_loop_filter:
  "findFirstUnpaidWeek_loop xs
     = (case filter (\<lambda>e. \<not> IsPaid e) xs of [] \<Rightarrow> 0 | e # es \<Rightarrow> ScheduleEntry.WeekNumber e)"
  by (induction xs) simp_all

lemma Min_sorted_head:
  fixes f :: "'a \<Rightarrow> int"
  assumes "sorted_wrt (\<lambda>a b. f a \<le> f b) (e # es)"
  shows "Min (set (map f (e # es))) = f e"
proof -
  from assms have "\<forall>b \<in> set (map f es). f e \<le> b"
    by auto
  then have "Min (insert (f e) (set (map f es))) = f e"
    by (intro Min_insert2) auto
  then show ?thesis
    by simp
qed

lemma sorted_schedule_lowest_unpaid:
  assumes "sorted_wrt (\<lambda>a b. ScheduleEntry.WeekNumber a \<le>s ScheduleEntry.WeekNumber b) (Schedule l)"
  shows "sint (GetNextDueWeek l) = lowest_unpaid_week l"
proof -
  let ?f = "\<lambda>e. sint (ScheduleEntry.WeekNumber e)"
  let ?unpaid = "filter (\<lambda>e. \<not> IsPaid e) (Schedule l)"
  from assms have "sorted_wrt (\<lambda>a b. ?f a \<le> ?f b) (Schedule l)"
    by (simp add: word_sle_eq)
  then have sorted: "sorted_wrt (\<lambda>a b. ?f a \<le> ?f b) ?unpaid"
    by (rule sorted_wrt_filter)
  show ?thesis
  proof (cases ?unpaid)
    case Nil
    then show ?thesis
      by (simp add: GetNextDueWeek_def findFirstUnpaidWeek_def findFirstUnpaidWeek_loop_filter
          lowest_unpaid_week_def)
  next
    case (Cons e es)
    from sorted have "Min (set (map ?f (e # es))) = ?f e"
      unfolding Cons by (rule Min_sorted_head)
    with Cons show ?thesis
      by (simp add: GetNextDueWeek_def findFirstUnpaidWeek_def findFirstUnpaidWeek_loop_filter
          lowest_unpaid_week_def)
  qed
qed

lemma numbered_schedule_sorted:
  assumes len: "length (Schedule l) = LoanDurationWeeks"
    and num: "\<forall>i < LoanDurationWeeks. ScheduleEntry.WeekNumber (Schedule l ! i) = word_of_nat i + 1"
  shows "sorted_wrt (\<lambda>a b. ScheduleEntry.WeekNumber a \<le>s ScheduleEntry.WeekNumber b) (Schedule l)"
  unfolding sorted_wrt_iff_nth_less
proof (intro allI impI)
  fix i j
  assume "i < j" "j < length (Schedule l)"
  with len have "i < 50" "j < 50"
    by (simp_all add: LoanDurationWeeks_def)
  with num \<open>i < j\<close>
  show "ScheduleEntry.WeekNumber (Schedule l ! i) \<le>s ScheduleEntry.WeekNumber (Schedule l ! j)"
    by (simp add: word_sle_eq sint_week_of_nat LoanDurationWeeks_def)
qed

lemma loan_data_model_lowest_unpaid:
  assumes "loan_data_model l"
  shows "sint (findFirstUnpaidWeek l) = lowest_unpaid_week l"
proof -
  from assms have "length (Schedule l) = LoanDurationWeeks"
    and "\<forall>i < LoanDurationWeeks. ScheduleEntry.WeekNumber (Schedule l ! i) = word_of_nat i + 1"
    by (simp_all add: loan_data_model_def)
  from sorted_schedule_lowest_unpaid [OF numbered_schedule_sorted [OF this]] show ?thesis
    by (simp only: GetNextDueWeek_def)
qed

lemma loan_data_model_week_numbers:
  assumes dm: "loan_data_model l" and e: "e \<in> set (Schedule l)"
  shows "0 \<le>s ScheduleEntry.WeekNumber e"
proof -
  from e obtain i where i: "i < length (Schedule l)" "e = Schedule l ! i"
    by (auto simp: in_set_conv_nth)
  with dm have "i < 50" "ScheduleEntry.WeekNumber e = word_of_nat i + 1"
    by (simp_all add: loan_data_model_def LoanDurationWeeks_def)
  then show ?thesis
    by (simp add: word_sle_eq sint_week_of_nat)
qed

lemma loan_data_model_NewLoan: "loan_data_model (NewLoan ident borrowerID principal' rate)"
  by (simp add: loan_data_model_def NewLoan_def Let_def LoanDurationWeeks_def word_sle_eq)

subsection \<open>The checks of a payment\<close>

lemma week_already_paid_index:
  fixes w :: go_int
  assumes "1 \<le> sint w"
  shows "week_already_paid l w = (unat (w - 1) < length (Schedule l) \<and> IsPaid (Schedule l ! unat (w - 1)))"
  using assms by (simp add: week_already_paid_def Let_def unat_pred_week)

lemma first_failed_check_chain:
  "first_failed_check l amount weekNumber =
     (if Money_Amount amount < 0 then Some ErrNegativeAmount
      else if Money_Amount amount \<noteq> Money_Amount (WeeklyPayment l) then Some ErrInvalidPaymentAmount
      else if Money_Amount (GetOutstanding l) = 0 then Some ErrLoanFullyPaid
      else if sint weekNumber < 1 \<or> 50 < sint weekNumber then Some ErrInvalidWeekNumber
      else if week_already_paid l weekNumber then Some ErrWeekAlreadyPaid
      else if sint weekNumber \<noteq> lowest_unpaid_week l then Some ErrPaymentOutOfSequence
      else None)"
  by (simp add: first_failed_check_def payment_checks_def LoanDurationWeeks_def)

lemma first_failed_check_None:
  "first_failed_check l amount weekNumber = None
     \<longleftrightarrow> (\<forall>c \<in> set (payment_checks l amount weekNumber). \<not> fst c)"
  by (auto simp: first_failed_check_def find_None_iff)

lemma MakePayment_returned_chain:
  assumes "LoanDurationWeeks \<le> length (Schedule l)"
  shows "returned (MakePayment l amount weekNumber now) =
     Some (if Money_Amount amount < 0 then Some ErrNegativeAmount
      else if Money_Amount amount \<noteq> Money_Amount (WeeklyPayment l) then Some ErrInvalidPaymentAmount
      else if Money_Amount (GetOutstanding l) = 0 then Some ErrLoanFullyPaid
      else if sint weekNumber < 1 \<or> 50 < sint weekNumber then Some ErrInvalidWeekNumber
      else if week_already_paid l weekNumber then Some ErrWeekAlreadyPaid
      else if weekNumber \<noteq> findFirstUnpaidWeek l then Some ErrPaymentOutOfSequence
      else None)"
proof (cases "sint weekNumber < 1 \<or> 50 < sint weekNumber")
  case True
  then show ?thesis
    by (simp add: MakePayment_def sint_week money_defs)
next
  case False
  then have r: "1 \<le> sint weekNumber" "sint weekNumber \<le> 50"
    by auto
  have i: "unat (weekNumber - 1) < length (Schedule l)"
    using r assms by (simp add: unat_pred_week LoanDurationWeeks_def)
  show ?thesis
    using False i
    by (simp add: MakePayment_def Let_def sint_week money_defs week_already_paid_index [OF r(1)])
qed

text \<open>
  C1. For every loan of the data model and every amount and week number, \<^verbatim>\<open>MakePayment\<close>
  returns, and what it returns is the error of the first of the six checks that fails, in
  the order negative amount, amount other than the weekly payment, outstanding already
  zero, week number outside 1..50, week already paid, week not the first unpaid week; it
  returns no error exactly when all six checks pass.
\<close>

theorem MakePayment_first_failed_check:
  assumes "loan_data_model l"
  shows "returned (MakePayment l amount weekNumber now) = Some (first_failed_check l amount weekNumber)
    \<and> (returned (MakePayment l amount weekNumber now) = Some None
         \<longleftrightarrow> (\<forall>c \<in> set (payment_checks l amount weekNumber). \<not> fst c))"
proof -
  from assms have len: "LoanDurationWeeks \<le> length (Schedule l)"
    by (simp add: loan_data_model_def)
  have check6: "(weekNumber \<noteq> findFirstUnpaidWeek l) = (sint weekNumber \<noteq> lowest_unpaid_week l)"
    unfolding loan_data_model_lowest_unpaid [OF assms, symmetric]
    by (auto intro: signed_word_eqI)
  from MakePayment_returned_chain [OF len, of amount weekNumber now]
  have "returned (MakePayment l amount weekNumber now) = Some (first_failed_check l amount weekNumber)"
    unfolding check6 by (simp only: first_failed_check_chain)
  with first_failed_check_None [of l amount weekNumber] show ?thesis
    by (simp only: option.inject simp_thms)
qed

theorem MakePayment_first_failed_check_witness:
  "loan_data_model demo_loan
   \<and> returned (MakePayment demo_loan (NewMoney 110000) 2 0) = Some (Some ErrPaymentOutOfSequence)
   \<and> (returned (MakePayment demo_loan (NewMoney 110000) 2 0) = Some None
         \<longleftrightarrow> (\<forall>c \<in> set (payment_checks demo_loan (NewMoney 110000) 2). \<not> fst c))"
proof -
  have h: "loan_data_model demo_loan"
    unfolding demo_loan_def by (rule loan_data_model_NewLoan)
  have e: "first_failed_check demo_loan (NewMoney 110000) 2 = Some ErrPaymentOutOfSequence"
    by code_simp
  from MakePayment_first_failed_check [OF h, of "NewMoney 110000" 2 0]
  have "returned (MakePayment demo_loan (NewMoney 110000) 2 0) = Some (Some ErrPaymentOutOfSequence)
    \<and> (returned (MakePayment demo_loan (NewMoney 110000) 2 0) = Some None
         \<longleftrightarrow> (\<forall>c \<in> set (payment_checks demo_loan (NewMoney 110000) 2). \<not> fst c))"
    unfolding e .
  with h show ?thesis
    by (rule conjI)
qed

subsection \<open>The effect of a payment\<close>

text \<open>
  C2. Whenever \<^verbatim>\<open>MakePayment\<close> returns an error, the loan is unchanged. Whenever it
  succeeds, exactly one payment, of the given amount, week and instant, is appended; the
  schedule entry of that week (the one at position \<open>i = weekNumber - 1\<close>, which \<^verbatim>\<open>NewLoan\<close>
  numbers \<open>i + 1 = weekNumber\<close>) was unpaid and is now paid, nothing else in it changes,
  every other entry is as before, and so is every other field of the loan.
\<close>

theorem MakePayment_effect:
  "MakePayment l amount weekNumber now = Returns r l' \<Longrightarrow>
     (case r of
        Some e \<Rightarrow> l' = l
      | None \<Rightarrow>
          (let i = unat (weekNumber - 1) in
             Payments l' = Payments l @ [\<lparr>Payment.WeekNumber = weekNumber, Amount = amount, PaidAt = now\<rparr>]
           \<and> word_of_nat i + 1 = weekNumber
           \<and> i < length (Schedule l) \<and> length (Schedule l') = length (Schedule l)
           \<and> \<not> IsPaid (Schedule l ! i)
           \<and> Schedule l' ! i = (Schedule l ! i)\<lparr>IsPaid := True\<rparr>
           \<and> (\<forall>j < length (Schedule l). j \<noteq> i \<longrightarrow> Schedule l' ! j = Schedule l ! j)
           \<and> ID l' = ID l \<and> BorrowerID l' = BorrowerID l \<and> Principal l' = Principal l
           \<and> InterestRate l' = InterestRate l \<and> TotalAmount l' = TotalAmount l
           \<and> WeeklyPayment l' = WeeklyPayment l \<and> CurrentWeek l' = CurrentWeek l))"
  by (auto simp: MakePayment_def Let_def split: if_splits)

theorem MakePayment_effect_witness:
  "MakePayment demo_loan (NewMoney 110000) 1 7 = Returns None demo_paid1
   \<and> Payments demo_paid1
       = Payments demo_loan @ [\<lparr>Payment.WeekNumber = 1, Amount = NewMoney 110000, PaidAt = 7\<rparr>]
   \<and> \<not> IsPaid (Schedule demo_loan ! 0)
   \<and> Schedule demo_paid1 ! 0 = (Schedule demo_loan ! 0)\<lparr>IsPaid := True\<rparr>
   \<and> Schedule demo_paid1 ! 49 = Schedule demo_loan ! 49
   \<and> length (Schedule demo_loan) = 50
   \<and> TotalAmount demo_paid1 = TotalAmount demo_loan
   \<and> CurrentWeek demo_paid1 = CurrentWeek demo_loan"
proof -
  have h: "MakePayment demo_loan (NewMoney 110000) 1 7 = Returns None demo_paid1"
    by code_simp
  have n: "length (Schedule demo_loan) = 50"
    by (simp add: demo_loan_def NewLoan_def Let_def LoanDurationWeeks_def)
  show ?thesis
    using h n MakePayment_effect [OF h] by (simp add: Let_def)
qed

subsection \<open>Delinquency\<close>

lemma lastPaidWeek_loop_sint:
  "sint (lastPaidWeek_loop acc xs)
     = foldl max (sint acc) (map (\<lambda>e. sint (ScheduleEntry.WeekNumber e)) (filter IsPaid xs))"
  by (induction xs arbitrary: acc) (simp_all add: word_sless_alt max_def)

lemma foldl_max_Max:
  fixes a :: int
  shows "foldl max a ys = Max (set (a # ys))"
proof -
  have "foldl max a ys = fold max ys a"
    by (simp add: foldl_conv_fold max.commute)
  then show ?thesis
    by (simp only: Max.set_eq_fold)
qed

lemma foldl_max_0_nonneg:
  fixes ys :: "int list"
  assumes "\<forall>y \<in> set ys. 0 \<le> y"
  shows "foldl max 0 ys = (if ys = [] then 0 else Max (set ys))"
proof (cases ys)
  case Nil
  then show ?thesis by simp
next
  case (Cons y ys')
  have "Max (set (0 # ys)) = max 0 (Max (set ys))"
    using Cons by (simp del: Max_insert add: Max_insert)
  moreover have "0 \<le> Max (set ys)"
    using Cons assms Max_ge_iff [of "set ys" 0] by auto
  ultimately show ?thesis
    using Cons by (simp only: foldl_max_Max) simp
qed

lemma sint_sub_no_overflow:
  fixes a b :: go_int
  assumes "0 \<le> sint a" "0 \<le> sint b"
  shows "sint (a - b) = sint a - sint b"
proof -
  have "sint a < 2 ^ 63" "sint b < 2 ^ 63"
    using sint_lt [of a] sint_lt [of b] by simp_all
  then have "- (2 ^ 63) \<le> sint a - sint b" "sint a - sint b < 2 ^ 63"
    using assms by linarith+
  then have "signed_take_bit 63 (sint a - sint b) = sint a - sint b"
    by (rule signed_take_bit_int_eq_self)
  then show ?thesis
    by (simp add: sint_word_ariths)
qed

lemma IsDelinquent_nonneg_weeks:
  assumes paid: "\<forall>e \<in> set (Schedule l). IsPaid e \<longrightarrow> 0 \<le>s ScheduleEntry.WeekNumber e"
    and week: "0 \<le>s CurrentWeek l"
  shows "(IsDelinquent l \<longleftrightarrow> 2 \<le> sint (CurrentWeek l) - lastPaidWeek_spec l)
    \<and> (CurrentWeek l = 1 \<and> filter IsPaid (Schedule l) = [] \<longrightarrow> \<not> IsDelinquent l)"
proof -
  let ?ys = "map (\<lambda>e. sint (ScheduleEntry.WeekNumber e)) (filter IsPaid (Schedule l))"
  have nonneg: "\<forall>y \<in> set ?ys. 0 \<le> y"
    using paid by (auto simp: word_sle_eq)
  have last: "sint (lastPaidWeek_loop 0 (Schedule l)) = lastPaidWeek_spec l"
    unfolding lastPaidWeek_loop_sint lastPaidWeek_spec_def Let_def
    using foldl_max_0_nonneg [OF nonneg] by simp
  have "0 \<le> lastPaidWeek_spec l"
    using nonneg Max_ge_iff [of "set ?ys" 0]
    by (auto simp: lastPaidWeek_spec_def Let_def filter_empty_conv)
  then have "0 \<le> sint (lastPaidWeek_loop 0 (Schedule l))"
    by (simp only: last)
  moreover have "0 \<le> sint (CurrentWeek l)"
    using week by (simp add: word_sle_eq)
  ultimately have "sint (CurrentWeek l - lastPaidWeek_loop 0 (Schedule l))
      = sint (CurrentWeek l) - lastPaidWeek_spec l"
    by (simp add: sint_sub_no_overflow last)
  then have main: "IsDelinquent l \<longleftrightarrow> 2 \<le> sint (CurrentWeek l) - lastPaidWeek_spec l"
    by (simp add: IsDelinquent_def Let_def DelinquencyThreshold_def word_sle_eq)
  then show ?thesis
    by (auto simp: lastPaidWeek_spec_def)
qed

text \<open>
  C3. For every loan of the data model, \<^verbatim>\<open>IsDelinquent\<close> is true exactly when the current
  week minus the last paid week is at least 2, the last paid week being the maximum week
  number among the paid schedule entries, or 0 if none is paid; at the current week 1 with
  no paid entry the loan is not delinquent.
\<close>

theorem IsDelinquent_weeks_behind:
  assumes "loan_data_model l"
  shows "(IsDelinquent l \<longleftrightarrow> 2 \<le> sint (CurrentWeek l) - lastPaidWeek_spec l)
    \<and> (CurrentWeek l = 1 \<and> filter IsPaid (Schedule l) = [] \<longrightarrow> \<not> IsDelinquent l)"
proof -
  have paid: "\<forall>e \<in> set (Schedule l). IsPaid e \<longrightarrow> 0 \<le>s ScheduleEntry.WeekNumber e"
    using loan_data_model_week_numbers [OF assms] by blast
  from assms have "1 \<le> sint (CurrentWeek l)"
    by (simp add: loan_data_model_def word_sle_eq)
  then have week: "0 \<le>s CurrentWeek l"
    by (simp add: word_sle_eq)
  from paid week show ?thesis
    by (rule IsDelinquent_nonneg_weeks)
qed

theorem IsDelinquent_weeks_behind_witness:
  "loan_data_model (demo_paid1\<lparr>CurrentWeek := 3\<rparr>)
   \<and> lastPaidWeek_spec (demo_paid1\<lparr>CurrentWeek := 3\<rparr>) = 1
   \<and> IsDelinquent (demo_paid1\<lparr>CurrentWeek := 3\<rparr>)"
proof -
  let ?l = "demo_paid1\<lparr>CurrentWeek := 3\<rparr>"
  have dm: "loan_data_model ?l"
    by (simp add: loan_data_model_def demo_paid1_def demo_loan_def NewLoan_def Let_def
        LoanDurationWeeks_def nth_list_update word_sle_eq)
  have last: "lastPaidWeek_spec ?l = 1"
    by code_simp
  from IsDelinquent_weeks_behind [OF dm, THEN conjunct1]
  have "IsDelinquent ?l \<longleftrightarrow> 2 \<le> sint (3 :: go_int) - 1"
    unfolding last by simp
  then have "IsDelinquent ?l"
    by simp
  with dm last show ?thesis
    by blast
qed

subsection \<open>The invariant of a loan\<close>

lemma loan_inv_NewLoan: "loan_inv (NewLoan ident borrowerID principal' rate)"
  by (simp add: loan_inv_def NewLoan_def Let_def decimal_Div_1_50 money_defs LoanDurationWeeks_def)

lemma findFirstUnpaidWeek_loop_prefix:
  "\<forall>i < length xs. IsPaid (xs ! i) = (i < n) \<Longrightarrow>
     findFirstUnpaidWeek_loop xs
       = (if n < length xs then ScheduleEntry.WeekNumber (xs ! n) else 0)"
proof (induction xs arbitrary: n)
  case Nil
  then show ?case by simp
next
  case (Cons x xs)
  show ?case
  proof (cases n)
    case 0
    with Cons.prems show ?thesis by auto
  next
    case (Suc m)
    from Cons.prems Suc have "IsPaid x"
      by auto
    moreover from Cons.prems Suc have "\<forall>i < length xs. IsPaid (xs ! i) = (i < m)"
      by auto
    ultimately show ?thesis
      using Cons.IH [of m] Suc by simp
  qed
qed

lemma loan_inv_findFirstUnpaidWeek:
  assumes "loan_inv l"
  shows "findFirstUnpaidWeek l
    = (if length (Payments l) < LoanDurationWeeks then word_of_nat (length (Payments l)) + 1 else 0)"
proof -
  from assms have len: "length (Schedule l) = LoanDurationWeeks"
    and paid: "\<forall>i < length (Schedule l). IsPaid (Schedule l ! i) = (i < length (Payments l))"
    and num: "\<forall>i < LoanDurationWeeks. ScheduleEntry.WeekNumber (Schedule l ! i) = word_of_nat i + 1"
    by (simp_all add: loan_inv_def)
  show ?thesis
    unfolding findFirstUnpaidWeek_def findFirstUnpaidWeek_loop_prefix [OF paid]
    using len num by simp
qed


lemma MakePayment_Returns_cases:
  assumes "MakePayment l amount weekNumber now = Returns r l'"
  shows "(\<exists>e. r = Some e \<and> l' = l) \<or>
     (r = None \<and> Money_Equals amount (WeeklyPayment l) \<and> \<not> Money_IsZero (GetOutstanding l)
      \<and> \<not> (weekNumber <s 1 \<or> word_of_nat LoanDurationWeeks <s weekNumber)
      \<and> unat (weekNumber - 1) < length (Schedule l)
      \<and> \<not> IsPaid (Schedule l ! unat (weekNumber - 1))
      \<and> weekNumber = findFirstUnpaidWeek l
      \<and> l' = l\<lparr>Payments := Payments l @
                   [\<lparr>Payment.WeekNumber = weekNumber, Amount = amount, PaidAt = now\<rparr>],
                 Schedule := (Schedule l)[unat (weekNumber - 1) :=
                   (Schedule l ! unat (weekNumber - 1))\<lparr>IsPaid := True\<rparr>]\<rparr>)"
  using assms by (auto simp: MakePayment_def Let_def split: if_splits)

lemma loan_inv_MakePayment_success:
  assumes inv: "loan_inv l"
    and ok: "MakePayment l amount weekNumber now = Returns None l'"
  shows "length (Payments l) < LoanDurationWeeks"
    and "weekNumber = word_of_nat (length (Payments l)) + 1"
    and "amount = WeeklyPayment l"
    and "\<not> Money_IsZero (GetOutstanding l)"
    and "l' = l\<lparr>Payments := Payments l @
                   [\<lparr>Payment.WeekNumber = weekNumber, Amount = amount, PaidAt = now\<rparr>],
                 Schedule := (Schedule l)[length (Payments l) :=
                   (Schedule l ! length (Payments l))\<lparr>IsPaid := True\<rparr>]\<rparr>"
proof -
  let ?n = "length (Payments l)"
  from MakePayment_Returns_cases [OF ok]
  have eq: "Money_Equals amount (WeeklyPayment l)"
    and out: "\<not> Money_IsZero (GetOutstanding l)"
    and range: "\<not> (weekNumber <s 1 \<or> word_of_nat LoanDurationWeeks <s weekNumber)"
    and first: "weekNumber = findFirstUnpaidWeek l"
    and l': "l' = l\<lparr>Payments := Payments l @
                   [\<lparr>Payment.WeekNumber = weekNumber, Amount = amount, PaidAt = now\<rparr>],
                 Schedule := (Schedule l)[unat (weekNumber - 1) :=
                   (Schedule l ! unat (weekNumber - 1))\<lparr>IsPaid := True\<rparr>]\<rparr>"
    by blast+
  from range have "weekNumber \<noteq> 0"
    by (auto simp: sint_week)
  with first loan_inv_findFirstUnpaidWeek [OF inv]
  show n: "?n < LoanDurationWeeks" and w: "weekNumber = word_of_nat ?n + 1"
    by (simp_all split: if_splits)
  from n have n50: "?n < 50"
    by (simp add: LoanDurationWeeks_def)
  have "unat (weekNumber - 1) = ?n"
    unfolding w by (rule unat_week_of_nat [OF n50])
  with l' show "l' = l\<lparr>Payments := Payments l @
                   [\<lparr>Payment.WeekNumber = weekNumber, Amount = amount, PaidAt = now\<rparr>],
                 Schedule := (Schedule l)[?n := (Schedule l ! ?n)\<lparr>IsPaid := True\<rparr>]\<rparr>"
    by simp
  from eq show "amount = WeeklyPayment l"
    by (simp add: Money_Equals_def Money.expand)
  from out show "\<not> Money_IsZero (GetOutstanding l)" .
qed

lemma loan_inv_MakePayment:
  assumes inv: "loan_inv l"
    and ret: "MakePayment l amount weekNumber now = Returns r l'"
  shows "loan_inv l'"
proof (cases r)
  case (Some e)
  with MakePayment_Returns_cases [OF ret] inv show ?thesis
    by simp
next
  case None
  let ?n = "length (Payments l)"
  note s = loan_inv_MakePayment_success [OF inv ret [unfolded None]]
  from inv have len: "length (Schedule l) = LoanDurationWeeks"
    and ent: "\<forall>i < LoanDurationWeeks.
        ScheduleEntry.WeekNumber (Schedule l ! i) = word_of_nat i + 1 \<and>
        IsPaid (Schedule l ! i) = (i < ?n)"
    and weeks: "map Payment.WeekNumber (Payments l) = map (\<lambda>i. word_of_nat i + 1) [0..<?n]"
    and amts: "\<forall>p \<in> set (Payments l). Payment.Amount p = WeeklyPayment l"
    and tot: "Money_Amount (TotalAmount l) = Money_Amount (WeeklyPayment l) * 50"
    by (simp_all add: loan_inv_def)
  have "length (Payments l') \<le> LoanDurationWeeks"
    using s(1) by (simp add: s(5))
  moreover have "length (Schedule l') = LoanDurationWeeks"
    using len by (simp add: s(5))
  moreover have "\<forall>i < LoanDurationWeeks.
        ScheduleEntry.WeekNumber (Schedule l' ! i) = word_of_nat i + 1 \<and>
        IsPaid (Schedule l' ! i) = (i < length (Payments l'))"
    using ent len s(1) by (auto simp: s(5) nth_list_update)
  moreover have "map Payment.WeekNumber (Payments l')
       = map (\<lambda>i. word_of_nat i + 1) [0..<length (Payments l')]"
    using weeks s(2) by (simp add: s(5))
  moreover have "\<forall>p \<in> set (Payments l'). Payment.Amount p = WeeklyPayment l'"
    using amts s(3) by (simp add: s(5))
  moreover have "Money_Amount (TotalAmount l') = Money_Amount (WeeklyPayment l') * 50"
    using tot by (simp add: s(5))
  ultimately show ?thesis
    unfolding loan_inv_def by blast
qed

lemma loan_inv_no_panic:
  assumes "loan_inv l"
  shows "MakePayment l amount weekNumber now \<noteq> Panic"
proof -
  from assms have "LoanDurationWeeks \<le> length (Schedule l)"
    by (simp add: loan_inv_def)
  from MakePayment_returned_chain [OF this, of amount weekNumber now] show ?thesis
    by auto
qed

lemma loan_inv_SetCurrentWeek: "loan_inv l \<Longrightarrow> loan_inv (SetCurrentWeek l week)"
  by (simp add: loan_inv_def SetCurrentWeek_def)

lemma loan_inv_apply_loan_op:
  assumes "loan_inv l"
  shows "\<exists>l'. apply_loan_op l x = Some l' \<and> loan_inv l'"
proof (cases x)
  case (OpMakePayment amount weekNumber now)
  show ?thesis
  proof (cases "MakePayment l amount weekNumber now")
    case Panic
    with loan_inv_no_panic [OF assms] show ?thesis by simp
  next
    case (Returns r l')
    with loan_inv_MakePayment [OF assms Returns] OpMakePayment show ?thesis by simp
  qed
next
  case (OpSetCurrentWeek week)
  with loan_inv_SetCurrentWeek [OF assms] show ?thesis by simp
qed

lemma loan_inv_run_loan_ops:
  assumes "loan_inv l"
  shows "\<exists>l'. run_loan_ops l xs = Some l' \<and> loan_inv l'"
  using assms
proof (induction xs arbitrary: l)
  case Nil
  then show ?case by simp
next
  case (Cons x xs)
  from loan_inv_apply_loan_op [OF Cons.prems, of x]
  obtain l1 where "apply_loan_op l x = Some l1" "loan_inv l1"
    by blast
  with Cons.IH [of l1] show ?case by simp
qed

lemma reachable_loan_inv:
  assumes "run_loan_ops (NewLoan ident borrowerID principal' rate) xs = Some l"
  shows "loan_inv l"
  using loan_inv_run_loan_ops [OF loan_inv_NewLoan, of ident borrowerID principal' rate xs] assms
  by auto


lemma loan_data_model_apply_loan_op:
  assumes dm: "loan_data_model l" and ap: "apply_loan_op l x = Some l'" and inv': "loan_inv l'"
  shows "loan_data_model l'"
proof -
  have week: "1 \<le>s CurrentWeek l' \<and> CurrentWeek l' \<le>s word_of_nat LoanDurationWeeks"
  proof (cases x)
    case (OpMakePayment amount weekNumber now)
    with ap obtain r where "MakePayment l amount weekNumber now = Returns r l'"
      by (cases "MakePayment l amount weekNumber now") simp_all
    from MakePayment_Returns_cases [OF this] have "CurrentWeek l' = CurrentWeek l"
      by auto
    with dm show ?thesis
      by (simp add: loan_data_model_def)
  next
    case (OpSetCurrentWeek week)
    with ap dm show ?thesis
      by (auto simp: loan_data_model_def SetCurrentWeek_def)
  qed
  with inv' show ?thesis
    by (simp add: loan_data_model_def loan_inv_def)
qed

lemma loan_data_model_run_loan_ops:
  assumes "loan_inv l" "loan_data_model l" "run_loan_ops l xs = Some l'"
  shows "loan_data_model l'"
  using assms
proof (induction xs arbitrary: l)
  case Nil
  then show ?case by simp
next
  case (Cons x xs)
  from loan_inv_apply_loan_op [OF Cons.prems(1), of x]
  obtain l1 where l1: "apply_loan_op l x = Some l1" "loan_inv l1"
    by blast
  from loan_data_model_apply_loan_op [OF Cons.prems(2) l1] Cons.prems(3) l1
  show ?case
    by (auto intro: Cons.IH)
qed

lemma reachable_loan_data_model:
  assumes "run_loan_ops (NewLoan ident borrowerID principal' rate) xs = Some l"
  shows "loan_data_model l"
  using loan_data_model_run_loan_ops [OF loan_inv_NewLoan loan_data_model_NewLoan assms] .

subsection \<open>Payments and schedule of a reachable loan\<close>

lemma loan_inv_payment_weeks_sint:
  assumes "loan_inv l"
  shows "map (\<lambda>p. sint (Payment.WeekNumber p)) (Payments l)
    = map int [1..<Suc (length (Payments l))]"
proof -
  let ?n = "length (Payments l)"
  from assms have n: "?n \<le> 50"
    and weeks: "map Payment.WeekNumber (Payments l) = map (\<lambda>i. word_of_nat i + 1) [0..<?n]"
    by (simp_all add: loan_inv_def LoanDurationWeeks_def)
  have "map (\<lambda>p. sint (Payment.WeekNumber p)) (Payments l)
      = map sint (map Payment.WeekNumber (Payments l))"
    by simp
  also have "\<dots> = map (\<lambda>i. sint (word_of_nat i + 1 :: go_int)) [0..<?n]"
    by (simp only: weeks map_map comp_def)
  also have "\<dots> = map (\<lambda>i. int (Suc i)) [0..<?n]"
    using n by (intro map_cong refl) (simp add: sint_week_of_nat)
  also have "\<dots> = map int (map Suc [0..<?n])"
    by simp
  also have "\<dots> = map int [1..<Suc ?n]"
    by (simp only: map_Suc_upt) simp
  finally show ?thesis .
qed

lemma Bex_eq_image: "(\<exists>p \<in> A. f p = w) \<longleftrightarrow> w \<in> f ` A"
  by auto

lemma image_upt_iff: "w \<in> f ` {0..<n::nat} \<longleftrightarrow> (\<exists>j < n. f j = w)"
  by auto

lemma loan_inv_paid_iff_payment:
  assumes inv: "loan_inv l" and i: "i < LoanDurationWeeks"
  shows "IsPaid (Schedule l ! i)
    \<longleftrightarrow> (\<exists>p \<in> set (Payments l). Payment.WeekNumber p = word_of_nat (i + 1))"
proof -
  let ?n = "length (Payments l)"
  from inv i have n: "?n \<le> 50" and i50: "i < 50"
    and paid: "IsPaid (Schedule l ! i) = (i < ?n)"
    and weeks: "map Payment.WeekNumber (Payments l) = map (\<lambda>i. word_of_nat i + 1) [0..<?n]"
    by (simp_all add: loan_inv_def LoanDurationWeeks_def)
  have e: "(word_of_nat (i + 1) :: go_int) = word_of_nat i + 1"
    by simp
  have "(\<exists>p \<in> set (Payments l). Payment.WeekNumber p = word_of_nat (i + 1))
      \<longleftrightarrow> (word_of_nat i + 1 :: go_int) \<in> set (map Payment.WeekNumber (Payments l))"
    unfolding e set_map by (rule Bex_eq_image)
  also have "\<dots> \<longleftrightarrow> (\<exists>j < ?n. (word_of_nat j + 1 :: go_int) = word_of_nat i + 1)"
    unfolding weeks set_map set_upt by (rule image_upt_iff)
  also have "\<dots> \<longleftrightarrow> i < ?n"
  proof
    assume "\<exists>j < ?n. (word_of_nat j + 1 :: go_int) = word_of_nat i + 1"
    then obtain j where j: "j < ?n" "(word_of_nat j + 1 :: go_int) = word_of_nat i + 1"
      by blast
    from j(1) n have "j < 50" by simp
    from week_of_nat_inj [OF this i50 j(2)] j(1) show "i < ?n" by simp
  next
    assume "i < ?n"
    then show "\<exists>j < ?n. (word_of_nat j + 1 :: go_int) = word_of_nat i + 1" by blast
  qed
  finally show ?thesis
    using paid by simp
qed

text \<open>
  C7. In every state reached from \<^verbatim>\<open>NewLoan\<close> by any sequence of operations, with \<open>n\<close>
  payments recorded: \<open>n\<close> is at most 50, the week numbers of the payments are 1, 2, ..., \<open>n\<close>
  in this order, the schedule has 50 entries, the entry at position \<open>i\<close> is paid exactly
  when a payment with the week number \<open>i + 1\<close> exists, and exactly the first \<open>n\<close> entries
  are paid.
\<close>

theorem reachable_payments_prefix:
  assumes "run_loan_ops (NewLoan ident borrowerID principal' rate) xs = Some l"
  shows "length (Payments l) \<le> LoanDurationWeeks
    \<and> map (\<lambda>p. sint (Payment.WeekNumber p)) (Payments l) = map int [1..<Suc (length (Payments l))]
    \<and> length (Schedule l) = LoanDurationWeeks
    \<and> (\<forall>i < LoanDurationWeeks. IsPaid (Schedule l ! i)
          \<longleftrightarrow> (\<exists>p \<in> set (Payments l). Payment.WeekNumber p = word_of_nat (i + 1)))
    \<and> (\<forall>i < LoanDurationWeeks. IsPaid (Schedule l ! i) \<longleftrightarrow> i < length (Payments l))"
proof -
  note inv = reachable_loan_inv [OF assms]
  from inv have "length (Payments l) \<le> LoanDurationWeeks"
    and "length (Schedule l) = LoanDurationWeeks"
    and "\<forall>i < LoanDurationWeeks. IsPaid (Schedule l ! i) \<longleftrightarrow> i < length (Payments l)"
    by (simp_all add: loan_inv_def)
  with loan_inv_payment_weeks_sint [OF inv] loan_inv_paid_iff_payment [OF inv]
  show ?thesis
    by blast
qed

theorem reachable_payments_prefix_witness:
  "run_loan_ops (NewLoan ''loan-100'' ''borrower-123'' (NewMoney 5000000) (1 / 10)) demo_ops
     = Some demo_paid2
   \<and> map (\<lambda>p. sint (Payment.WeekNumber p)) (Payments demo_paid2) = [1, 2]
   \<and> length (Schedule demo_paid2) = 50
   \<and> IsPaid (Schedule demo_paid2 ! 1)
   \<and> \<not> IsPaid (Schedule demo_paid2 ! 2)"
proof -
  have h: "run_loan_ops (NewLoan ''loan-100'' ''borrower-123'' (NewMoney 5000000) (1 / 10)) demo_ops
     = Some demo_paid2"
    by code_simp
  have n: "length (Payments demo_paid2) = 2"
    by (simp add: demo_paid2_def)
  have u: "map int [1..<Suc 2] = [1, 2]"
    by code_simp
  note t = reachable_payments_prefix [OF h]
  note weeks = t [THEN conjunct2, THEN conjunct1, unfolded n u]
  note len = t [THEN conjunct2, THEN conjunct2, THEN conjunct1, unfolded LoanDurationWeeks_def]
  note paid = t [THEN conjunct2, THEN conjunct2, THEN conjunct2, THEN conjunct2,
      unfolded n LoanDurationWeeks_def, rule_format]
  have "IsPaid (Schedule demo_paid2 ! 1)"
    using paid [of 1] by simp
  moreover have "\<not> IsPaid (Schedule demo_paid2 ! 2)"
    using paid [of 2] by simp
  ultimately show ?thesis
    using h weeks len by blast
qed

subsection \<open>Closed loans\<close>

lemma sum_list_const:
  fixes f :: "'a \<Rightarrow> rat"
  assumes "\<forall>p \<in> set ps. f p = c"
  shows "sum_list (map f ps) = of_nat (length ps) * c"
  using assms by (induction ps) (simp_all add: algebra_simps)

lemma loan_inv_outstanding:
  assumes "loan_inv l"
  shows "Money_Amount (GetOutstanding l)
    = (50 - of_nat (length (Payments l))) * Money_Amount (WeeklyPayment l)"
proof -
  from assms have amts: "\<forall>p \<in> set (Payments l). Money_Amount (Payment.Amount p) = Money_Amount (WeeklyPayment l)"
    and tot: "Money_Amount (TotalAmount l) = Money_Amount (WeeklyPayment l) * 50"
    by (simp_all add: loan_inv_def)
  show ?thesis
    unfolding GetOutstanding_amount sum_list_const [OF amts] tot
    by (simp add: algebra_simps)
qed

text \<open>
  C6 (amended). In every state reached from \<^verbatim>\<open>NewLoan\<close>, \<^verbatim>\<open>IsClosed\<close> is
  \<^verbatim>\<open>GetOutstanding().IsZero()\<close>, and it holds exactly when the total amount is zero or all
  50 payments have been recorded.
\<close>

theorem IsClosed_iff_all_paid:
  assumes "run_loan_ops (NewLoan ident borrowerID principal' rate) xs = Some l"
  shows "IsClosed l = Money_IsZero (GetOutstanding l)
    \<and> (IsClosed l \<longleftrightarrow>
          Money_IsZero (TotalAmount l) \<or> length (Payments l) = LoanDurationWeeks)"
proof -
  note inv = reachable_loan_inv [OF assms]
  from inv have tot: "Money_Amount (TotalAmount l) = Money_Amount (WeeklyPayment l) * 50"
    by (simp add: loan_inv_def)
  have "(50 - rat_of_nat (length (Payments l)) = 0) = (rat_of_nat (length (Payments l)) = rat_of_nat 50)"
    by auto
  also have "\<dots> = (length (Payments l) = 50)"
    by (simp only: of_nat_eq_iff)
  finally show ?thesis
    by (auto simp: IsClosed_def Money_IsZero_def loan_inv_outstanding [OF inv] tot
        LoanDurationWeeks_def)
qed

theorem IsClosed_iff_all_paid_witness:
  "run_loan_ops (NewLoan ''loan-100'' ''borrower-123'' (NewMoney 5000000) (1 / 10)) demo_ops
     = Some demo_paid2
   \<and> \<not> Money_IsZero (TotalAmount demo_paid2)
   \<and> length (Payments demo_paid2) = 2
   \<and> \<not> IsClosed demo_paid2"
proof -
  have h: "run_loan_ops (NewLoan ''loan-100'' ''borrower-123'' (NewMoney 5000000) (1 / 10)) demo_ops
     = Some demo_paid2"
    by code_simp
  have n: "length (Payments demo_paid2) = 2"
    by (simp add: demo_paid2_def)
  have t: "\<not> Money_IsZero (TotalAmount demo_paid2)"
    by code_simp
  from IsClosed_iff_all_paid [OF h, THEN conjunct2]
  have "IsClosed demo_paid2 \<longleftrightarrow> Money_IsZero (TotalAmount demo_paid2) \<or> (2::nat) = 50"
    unfolding n LoanDurationWeeks_def .
  with t have "\<not> IsClosed demo_paid2"
    by simp
  with h t n show ?thesis
    by blast
qed

text \<open>
  The loan built from the principal 0 has the total amount 0: it is closed from the start,
  with no payment recorded.
\<close>

theorem IsClosed_zero_principal:
  "run_loan_ops (NewLoan ''loan-0'' ''borrower-0'' (NewMoney 0) (1 / 10)) [] = Some zero_loan
   \<and> IsClosed zero_loan \<and> length (Payments zero_loan) \<noteq> LoanDurationWeeks"
  by (simp add: zero_loan_def IsClosed_def GetOutstanding_def NewLoan_def Let_def money_defs
      LoanDurationWeeks_def)


subsection \<open>The next due week\<close>

lemma loan_inv_sorted_schedule:
  assumes "loan_inv l"
  shows "sorted_wrt (\<lambda>a b. ScheduleEntry.WeekNumber a \<le>s ScheduleEntry.WeekNumber b) (Schedule l)"
proof -
  from assms have "length (Schedule l) = LoanDurationWeeks"
    and "\<forall>i < LoanDurationWeeks. ScheduleEntry.WeekNumber (Schedule l ! i) = word_of_nat i + 1"
    by (simp_all add: loan_inv_def)
  then show ?thesis
    by (rule numbered_schedule_sorted)
qed

text \<open>
  C8. For every loan of the data model, \<^verbatim>\<open>GetNextDueWeek\<close> returns the lowest week number
  whose schedule entry is unpaid, or 0 if every entry is paid. It is 1 on a fresh loan, and
  in every state reached from \<^verbatim>\<open>NewLoan\<close> with \<open>n\<close> payments recorded it is \<open>n + 1\<close> while
  \<open>n < 50\<close>, and 0 once all 50 weeks are paid: a successful payment raises it by exactly
  one, or takes it to 0 when it was the fiftieth.
\<close>

theorem GetNextDueWeek_lowest_unpaid:
  "(loan_data_model l \<longrightarrow> sint (GetNextDueWeek l) = lowest_unpaid_week l)
   \<and> GetNextDueWeek (NewLoan ident borrowerID principal' rate) = 1
   \<and> (run_loan_ops (NewLoan ident borrowerID principal' rate) xs = Some l' \<longrightarrow>
        sint (GetNextDueWeek l') = lowest_unpaid_week l'
        \<and> GetNextDueWeek l'
            = (if length (Payments l') < LoanDurationWeeks
               then word_of_nat (length (Payments l')) + 1 else 0)
        \<and> (MakePayment l' amount weekNumber now = Returns None l'' \<longrightarrow>
              GetNextDueWeek l''
                = (if length (Payments l'') < LoanDurationWeeks
                   then GetNextDueWeek l' + 1 else 0)))"
proof (intro conjI impI)
  assume "loan_data_model l"
  then show "sint (GetNextDueWeek l) = lowest_unpaid_week l"
    unfolding GetNextDueWeek_def by (rule loan_data_model_lowest_unpaid)
next
  show "GetNextDueWeek (NewLoan ident borrowerID principal' rate) = 1"
    using loan_inv_findFirstUnpaidWeek [OF loan_inv_NewLoan, of ident borrowerID principal' rate]
    by (simp add: GetNextDueWeek_def NewLoan_def Let_def LoanDurationWeeks_def)
next
  assume "run_loan_ops (NewLoan ident borrowerID principal' rate) xs = Some l'"
  then have inv: "loan_inv l'"
    by (rule reachable_loan_inv)
  show "sint (GetNextDueWeek l') = lowest_unpaid_week l'"
    by (rule sorted_schedule_lowest_unpaid [OF loan_inv_sorted_schedule [OF inv]])
  show "GetNextDueWeek l'
            = (if length (Payments l') < LoanDurationWeeks
               then word_of_nat (length (Payments l')) + 1 else 0)"
    unfolding GetNextDueWeek_def by (rule loan_inv_findFirstUnpaidWeek [OF inv])
  assume ok: "MakePayment l' amount weekNumber now = Returns None l''"
  note s = loan_inv_MakePayment_success [OF inv ok]
  have n: "length (Payments l'') = Suc (length (Payments l'))"
    by (simp add: s(5))
  from loan_inv_findFirstUnpaidWeek [OF loan_inv_MakePayment [OF inv ok]]
    loan_inv_findFirstUnpaidWeek [OF inv] s(1)
  show "GetNextDueWeek l''
                = (if length (Payments l'') < LoanDurationWeeks
                   then GetNextDueWeek l' + 1 else 0)"
    by (simp add: GetNextDueWeek_def n)
qed

theorem GetNextDueWeek_lowest_unpaid_witness:
  "loan_data_model demo_paid2
   \<and> run_loan_ops (NewLoan ''loan-100'' ''borrower-123'' (NewMoney 5000000) (1 / 10)) demo_ops
       = Some demo_paid2
   \<and> lowest_unpaid_week demo_paid2 = 3
   \<and> GetNextDueWeek demo_paid2 = 3"
proof -
  have h: "run_loan_ops (NewLoan ''loan-100'' ''borrower-123'' (NewMoney 5000000) (1 / 10)) demo_ops
     = Some demo_paid2"
    by code_simp
  have dm: "loan_data_model demo_paid2"
    using h by (rule reachable_loan_data_model)
  have n: "length (Payments demo_paid2) = 2"
    by (simp add: demo_paid2_def)
  note t = GetNextDueWeek_lowest_unpaid [of demo_paid2 "''loan-100''" "''borrower-123''"
      "NewMoney 5000000" "1 / 10" demo_ops demo_paid2]
  from t [THEN conjunct2, THEN conjunct2, rule_format, OF h, THEN conjunct2, THEN conjunct1]
  have next_due: "GetNextDueWeek demo_paid2 = (if (2::nat) < 50 then word_of_nat 2 + 1 else 0)"
    unfolding n LoanDurationWeeks_def .
  from t [THEN conjunct1, rule_format, OF dm]
  have "lowest_unpaid_week demo_paid2 = sint (GetNextDueWeek demo_paid2)"
    by (rule sym)
  also have "\<dots> = 3"
    unfolding next_due by simp
  finally have "lowest_unpaid_week demo_paid2 = 3" .
  moreover have "GetNextDueWeek demo_paid2 = 3"
    unfolding next_due by simp
  ultimately show ?thesis
    using dm h by blast
qed

subsection \<open>Creating a loan\<close>

text \<open>
  C9. In every service state, \<^verbatim>\<open>CreateLoan\<close> with an identifier that is already
  registered fails with \<open>DuplicateLoan\<close> and leaves the service as it was; with a fresh
  identifier it registers, and returns, the loan \<^verbatim>\<open>NewLoan\<close> builds at the annual rate
  0.10, whose schedule has 50 entries and whose 50 weekly payments are the total amount.
\<close>

theorem CreateLoan_duplicate_or_insert:
  "(loans s loanID \<noteq> None \<longrightarrow>
      CreateLoan s loanID borrowerID principal' = (Inl (DuplicateLoan loanID), s))
   \<and> (loans s loanID = None \<longrightarrow>
      CreateLoan s loanID borrowerID principal'
        = (Inr (NewLoan loanID borrowerID principal' (1 / 10)),
           s\<lparr>loans := (loans s)(loanID \<mapsto> NewLoan loanID borrowerID principal' (1 / 10))\<rparr>)
      \<and> InterestRate (NewLoan loanID borrowerID principal' (1 / 10)) = 1 / 10
      \<and> length (Schedule (NewLoan loanID borrowerID principal' (1 / 10))) = 50
      \<and> Money_Amount (WeeklyPayment (NewLoan loanID borrowerID principal' (1 / 10))) * 50
          = Money_Amount (TotalAmount (NewLoan loanID borrowerID principal' (1 / 10))))"
  by (auto simp: CreateLoan_def Let_def NewLoan_def LoanDurationWeeks_def decimal_Div_1_50 money_defs)

theorem CreateLoan_duplicate_or_insert_witness:
  "loans demo_service ''loan-100'' \<noteq> None
   \<and> CreateLoan demo_service ''loan-100'' ''borrower-456'' (NewMoney 1)
       = (Inl (DuplicateLoan ''loan-100''), demo_service)
   \<and> loans NewBillingService ''loan-100'' = None
   \<and> CreateLoan NewBillingService ''loan-100'' ''borrower-123'' (NewMoney 5000000)
       = (Inr demo_loan, demo_service)"
proof -
  have d: "loans demo_service ''loan-100'' \<noteq> None"
    by (simp add: demo_service_def)
  have f: "loans NewBillingService ''loan-100'' = None"
    by (simp add: NewBillingService_def)
  note t1 = CreateLoan_duplicate_or_insert [of demo_service "''loan-100''" "''borrower-456''" "NewMoney 1",
      THEN conjunct1, rule_format, OF d]
  note t2 = CreateLoan_duplicate_or_insert [of NewBillingService "''loan-100''" "''borrower-123''"
      "NewMoney 5000000", THEN conjunct2, rule_format, OF f, THEN conjunct1]
  have "CreateLoan NewBillingService ''loan-100'' ''borrower-123'' (NewMoney 5000000)
       = (Inr demo_loan, demo_service)"
    unfolding t2 by (simp add: demo_loan_def demo_service_def NewBillingService_def)
  with d f t1 show ?thesis
    by blast
qed

subsection \<open>Paying the next due week\<close>

lemma service_inv_NewBillingService: "service_inv NewBillingService"
  by (simp add: service_inv_def NewBillingService_def)

lemma service_inv_update:
  assumes "service_inv s" "loan_inv loan"
  shows "service_inv (s\<lparr>loans := (loans s)(loanID \<mapsto> loan)\<rparr>)"
  using assms by (simp add: service_inv_def)

lemma service_inv_CreateLoan:
  assumes "service_inv s"
  shows "service_inv (snd (CreateLoan s loanID borrowerID principal'))"
proof (cases "loans s loanID")
  case None
  with service_inv_update [OF assms loan_inv_NewLoan] show ?thesis
    by (simp add: CreateLoan_def Let_def)
next
  case (Some existing)
  with assms show ?thesis
    by (simp add: CreateLoan_def)
qed

lemma service_inv_MakePayment:
  assumes "service_inv s"
  shows "\<exists>r s'. Service_MakePayment s loanID amount weekNumber now = Returns r s' \<and> service_inv s'"
proof (cases "loans s loanID")
  case None
  with assms show ?thesis
    by (simp add: Service_MakePayment_def)
next
  case (Some loan)
  with assms have inv: "loan_inv loan"
    by (simp add: service_inv_def)
  show ?thesis
  proof (cases "MakePayment loan amount weekNumber now")
    case Panic
    with loan_inv_no_panic [OF inv] show ?thesis by simp
  next
    case (Returns err loan')
    from service_inv_update [OF assms loan_inv_MakePayment [OF inv Returns]] Some Returns
    show ?thesis
      by (simp add: Service_MakePayment_def)
  qed
qed

lemma service_inv_MakeNextPayment:
  assumes "service_inv s"
  shows "\<exists>r s'. Service_MakeNextPayment s loanID amount now = Returns r s' \<and> service_inv s'"
proof (cases "loans s loanID")
  case None
  with assms show ?thesis
    by (simp add: Service_MakeNextPayment_def)
next
  case (Some loan)
  with assms have inv: "loan_inv loan"
    by (simp add: service_inv_def)
  show ?thesis
  proof (cases "MakePayment loan amount (GetNextDueWeek loan) now")
    case Panic
    with loan_inv_no_panic [OF inv] show ?thesis by simp
  next
    case (Returns err loan')
    from service_inv_update [OF assms loan_inv_MakePayment [OF inv Returns]] Some Returns assms
    show ?thesis
      by (simp add: Service_MakeNextPayment_def Let_def)
  qed
qed

lemma service_inv_apply_service_op:
  assumes "service_inv s"
  shows "\<exists>s'. apply_service_op s x = Some s' \<and> service_inv s'"
proof (cases x)
  case (SvcCreateLoan loanID borrowerID principal')
  with service_inv_CreateLoan [OF assms] show ?thesis by simp
next
  case (SvcMakePayment loanID amount weekNumber now)
  from service_inv_MakePayment [OF assms, of loanID amount weekNumber now] SvcMakePayment
  show ?thesis by auto
next
  case (SvcMakeNextPayment loanID amount now)
  from service_inv_MakeNextPayment [OF assms, of loanID amount now] SvcMakeNextPayment
  show ?thesis by auto
next
  case (SvcSetCurrentWeek loanID week)
  show ?thesis
  proof (cases "loans s loanID")
    case None
    with assms SvcSetCurrentWeek show ?thesis by simp
  next
    case (Some loan)
    with assms have "loan_inv loan"
      by (simp add: service_inv_def)
    from service_inv_update [OF assms loan_inv_SetCurrentWeek [OF this]] Some SvcSetCurrentWeek
    show ?thesis by simp
  qed
qed

lemma service_inv_run_service_ops:
  assumes "service_inv s"
  shows "\<exists>s'. run_service_ops s xs = Some s' \<and> service_inv s'"
  using assms
proof (induction xs arbitrary: s)
  case Nil
  then show ?case by simp
next
  case (Cons x xs)
  from service_inv_apply_service_op [OF Cons.prems, of x]
  obtain s1 where "apply_service_op s x = Some s1" "service_inv s1"
    by blast
  with Cons.IH [of s1] show ?case by simp
qed

lemma loan_inv_next_week_checks:
  assumes inv: "loan_inv loan" and due: "GetNextDueWeek loan \<noteq> 0"
  shows "\<not> (sint (GetNextDueWeek loan) < 1 \<or> 50 < sint (GetNextDueWeek loan))"
    and "\<not> week_already_paid loan (GetNextDueWeek loan)"
    and "GetNextDueWeek loan = findFirstUnpaidWeek loan"
proof -
  let ?n = "length (Payments loan)"
  note first = loan_inv_findFirstUnpaidWeek [OF inv]
  from due first have n: "?n < 50" and w: "GetNextDueWeek loan = word_of_nat ?n + 1"
    by (simp_all add: GetNextDueWeek_def LoanDurationWeeks_def split: if_splits)
  from inv n have paid: "\<not> IsPaid (Schedule loan ! ?n)"
    by (simp add: loan_inv_def LoanDurationWeeks_def)
  have s: "sint (GetNextDueWeek loan) = int ?n + 1"
    unfolding w by (rule sint_week_of_nat [OF n])
  from n show "\<not> (sint (GetNextDueWeek loan) < 1 \<or> 50 < sint (GetNextDueWeek loan))"
    unfolding s by simp
  from paid show "\<not> week_already_paid loan (GetNextDueWeek loan)"
    unfolding week_already_paid_def s by (simp add: Let_def)
  show "GetNextDueWeek loan = findFirstUnpaidWeek loan"
    by (simp add: GetNextDueWeek_def)
qed

lemma loan_inv_next_payment_returned:
  assumes inv: "loan_inv loan" and due: "GetNextDueWeek loan \<noteq> 0"
  shows "returned (MakePayment loan amount (GetNextDueWeek loan) now)
    \<in> {Some None, Some (Some ErrLoanFullyPaid), Some (Some ErrNegativeAmount),
        Some (Some ErrInvalidPaymentAmount)}"
proof -
  from inv have "LoanDurationWeeks \<le> length (Schedule loan)"
    by (simp add: loan_inv_def)
  note chain = MakePayment_returned_chain [OF this, of amount "GetNextDueWeek loan" now]
  note c = loan_inv_next_week_checks [OF inv due]
  show ?thesis
    unfolding chain using c(1) c(2) c(3) by simp
qed

text \<open>
  C10. In every service state reached from \<^verbatim>\<open>NewBillingService\<close> by any sequence of
  operations, \<^verbatim>\<open>MakeNextPayment\<close> returns, and it returns success or one of
  \<open>LoanNotFound\<close>, \<open>LoanFullyPaid\<close>, \<open>NegativeAmount\<close>, \<open>InvalidPaymentAmount\<close>: never
  \<open>WeekAlreadyPaid\<close>, \<open>PaymentOutOfSequence\<close> or \<open>InvalidWeekNumber\<close>. For a registered
  loan \<open>LoanNotFound\<close> is excluded too, and whenever its next due week is not 0, that week
  is not already paid and is the first unpaid week: the checks 5 and 6 pass.
\<close>

theorem MakeNextPayment_errors:
  assumes "run_service_ops NewBillingService xs = Some s"
  shows "returned (Service_MakeNextPayment s loanID amount now)
      \<in> {Some None, Some (Some (LoanNotFound loanID)), Some (Some (Ledger ErrLoanFullyPaid)),
          Some (Some (Ledger ErrNegativeAmount)), Some (Some (Ledger ErrInvalidPaymentAmount))}
    \<and> (\<forall>loan. loans s loanID = Some loan \<longrightarrow>
          returned (Service_MakeNextPayment s loanID amount now)
            \<in> {Some None, Some (Some (Ledger ErrLoanFullyPaid)),
                Some (Some (Ledger ErrNegativeAmount)), Some (Some (Ledger ErrInvalidPaymentAmount))}
          \<and> (GetNextDueWeek loan \<noteq> 0 \<longrightarrow>
                \<not> week_already_paid loan (GetNextDueWeek loan)
                \<and> GetNextDueWeek loan = findFirstUnpaidWeek loan))"
proof -
  from service_inv_run_service_ops [OF service_inv_NewBillingService, of xs] assms
  have sinv: "service_inv s"
    by auto
  have registered: "returned (Service_MakeNextPayment s loanID amount now)
            \<in> {Some None, Some (Some (Ledger ErrLoanFullyPaid)),
                Some (Some (Ledger ErrNegativeAmount)), Some (Some (Ledger ErrInvalidPaymentAmount))}
          \<and> (GetNextDueWeek loan \<noteq> 0 \<longrightarrow>
                \<not> week_already_paid loan (GetNextDueWeek loan)
                \<and> GetNextDueWeek loan = findFirstUnpaidWeek loan)"
    if reg: "loans s loanID = Some loan" for loan
  proof (cases "GetNextDueWeek loan = 0")
    case True
    with reg show ?thesis
      by (simp add: Service_MakeNextPayment_def)
  next
    case False
    from sinv reg have inv: "loan_inv loan"
      by (simp add: service_inv_def)
    from loan_inv_next_payment_returned [OF inv False, of amount now]
    have "returned (Service_MakeNextPayment s loanID amount now)
            \<in> {Some None, Some (Some (Ledger ErrLoanFullyPaid)),
                Some (Some (Ledger ErrNegativeAmount)), Some (Some (Ledger ErrInvalidPaymentAmount))}"
      using reg False
      by (cases "MakePayment loan amount (GetNextDueWeek loan) now")
        (auto simp: Service_MakeNextPayment_def Let_def)
    with loan_inv_next_week_checks [OF inv False] show ?thesis
      by blast
  qed
  show ?thesis
  proof (cases "loans s loanID")
    case None
    then show ?thesis
      by (simp add: Service_MakeNextPayment_def)
  next
    case (Some loan)
    with registered [OF Some] show ?thesis
      by auto
  qed
qed


theorem MakeNextPayment_errors_witness:
  "run_service_ops NewBillingService demo_service_ops = Some demo_service_paid1
   \<and> loans demo_service_paid1 ''loan-100'' = Some demo_paid1
   \<and> GetNextDueWeek demo_paid1 = 2
   \<and> \<not> week_already_paid demo_paid1 2
   \<and> returned (Service_MakeNextPayment demo_service_paid1 ''loan-100'' (NewMoney 110000) 9)
       \<in> {Some None, Some (Some (Ledger ErrLoanFullyPaid)),
           Some (Some (Ledger ErrNegativeAmount)), Some (Some (Ledger ErrInvalidPaymentAmount))}"
proof -
  have p: "MakePayment (NewLoan ''loan-100'' ''borrower-123'' (NewMoney 5000000) (1 / 10))
      (NewMoney 110000) 1 7 = Returns None demo_paid1"
    by code_simp
  have h: "run_service_ops NewBillingService demo_service_ops = Some demo_service_paid1"
    by (simp add: demo_service_ops_def NewBillingService_def CreateLoan_def
        Service_MakePayment_def Let_def p demo_service_paid1_def)
  have reg: "loans demo_service_paid1 ''loan-100'' = Some demo_paid1"
    by (simp add: demo_service_paid1_def)
  have due: "GetNextDueWeek demo_paid1 = 2"
    by code_simp
  have due0: "GetNextDueWeek demo_paid1 \<noteq> 0"
    unfolding due by simp
  note t = MakeNextPayment_errors [OF h, of "''loan-100''" "NewMoney 110000" 9,
      THEN conjunct2, rule_format, OF reg]
  note unpaid = t [THEN conjunct2, rule_format, OF due0, THEN conjunct1, unfolded due]
  from h reg due unpaid t [THEN conjunct1] show ?thesis
    by blast
qed

end
